theory Spec2Isabelle
  imports Main "HOL-Library.Word"
begin

unbundle bit_operations_syntax

section \<open>Data model of eput\_utils\<close>

text \<open>
  The C types of \<^verbatim>\<open>eput_utils.h\<close>.  Fixed-width integers are machine words; a signed
  type is the same word read in two's complement (\<open>sint\<close>).  A \<^verbatim>\<open>uint8_t *\<close> argument
  is the list of bytes that starts at the pointer, so \<^verbatim>\<open>bytes + k\<close> is \<open>drop k bytes\<close>.
  The platform is the usual one: \<^verbatim>\<open>int\<close> and \<^verbatim>\<open>unsigned int\<close> have 32 bits, a
  conversion to a narrower or signed type keeps the low bits, and \<^verbatim>\<open>>>\<close> on a signed
  value is the arithmetic shift.
\<close>

type_synonym uint8_t = "8 word"
type_synonym uint16_t = "16 word"
type_synonym uint32_t = "32 word"
type_synonym uint64_t = "64 word"
type_synonym int8_t = "8 word"
type_synonym int16_t = "16 word"
type_synonym int32_t = "32 word"
type_synonym int64_t = "64 word"

type_synonym time_point = int64_t
type_synonym zone_offset = int16_t

text \<open>
  Field names carry a prefix where two structs of the header share a name
  (\<^verbatim>\<open>from\<close>, \<^verbatim>\<open>to\<close>, \<^verbatim>\<open>unscaled\<close>, \<^verbatim>\<open>scale\<close>).
\<close>

record zoned_time =
  zt_time :: time_point
  zt_offset :: zone_offset

record hh_mm_ss =
  hours :: uint8_t
  minutes :: uint8_t
  seconds :: uint8_t

record time_range =
  tr_from :: hh_mm_ss
  tr_to :: hh_mm_ss

record date_range =
  dr_from :: time_point
  dr_to :: time_point

record fixp32 =
  unscaled32 :: int32_t
  scale32 :: int32_t

record fixp64 =
  unscaled64 :: int64_t
  scale64 :: int32_t

section \<open>Primitive codec\<close>

subsection \<open>Unsigned integers\<close>

definition bytes_to_uint8 :: "uint8_t list \<Rightarrow> uint8_t" where
  "bytes_to_uint8 bytes = bytes ! 0"

definition bytes_to_uint16 :: "uint8_t list \<Rightarrow> uint16_t" where
  "bytes_to_uint16 bytes =
     push_bit 8 (ucast (bytes ! 0)) + ucast (bytes ! 1)"

definition bytes_to_uint32 :: "uint8_t list \<Rightarrow> uint32_t" where
  "bytes_to_uint32 bytes =
     push_bit 24 (ucast (bytes ! 0))
     + push_bit 16 (ucast (bytes ! 1))
     + push_bit 8 (ucast (bytes ! 2))
     + ucast (bytes ! 3)"

definition bytes_to_uint64 :: "uint8_t list \<Rightarrow> uint64_t" where
  "bytes_to_uint64 bytes =
     push_bit 56 (ucast (bytes ! 0))
     + push_bit 48 (ucast (bytes ! 1))
     + push_bit 40 (ucast (bytes ! 2))
     + push_bit 32 (ucast (bytes ! 3))
     + push_bit 24 (ucast (bytes ! 4))
     + push_bit 16 (ucast (bytes ! 5))
     + push_bit 8 (ucast (bytes ! 6))
     + ucast (bytes ! 7)"

text \<open>
  An encoder writes through its \<^verbatim>\<open>bytes\<close> argument and returns nothing; the model
  returns the bytes written, \<^verbatim>\<open>bytes[0]\<close> first.
\<close>

definition uint8_to_bytes :: "uint8_t \<Rightarrow> uint8_t list" where
  "uint8_to_bytes val = [val]"

definition uint16_to_bytes :: "uint16_t \<Rightarrow> uint8_t list" where
  "uint16_to_bytes val = [ucast (drop_bit 8 val), ucast val]"

definition uint32_to_bytes :: "uint32_t \<Rightarrow> uint8_t list" where
  "uint32_to_bytes val =
     [ucast (drop_bit 24 val), ucast (drop_bit 16 val), ucast (drop_bit 8 val), ucast val]"

definition uint64_to_bytes :: "uint64_t \<Rightarrow> uint8_t list" where
  "uint64_to_bytes val =
     [ucast (drop_bit 56 val), ucast (drop_bit 48 val), ucast (drop_bit 40 val),
      ucast (drop_bit 32 val), ucast (drop_bit 24 val), ucast (drop_bit 16 val),
      ucast (drop_bit 8 val), ucast val]"

subsection \<open>Signed integers\<close>

text \<open>
  The signed decoders accumulate: \<^verbatim>\<open>i += bytes[k]; i <<= 8;\<close>.  The signed encoders
  store the low byte and shift the value right by 8, last byte first.
\<close>

definition bytes_to_int8 :: "uint8_t list \<Rightarrow> int8_t" where
  "bytes_to_int8 bytes = bytes ! 0"

definition bytes_to_int16 :: "uint8_t list \<Rightarrow> int16_t" where
  "bytes_to_int16 bytes =
     (let i = 0;
          i = i + ucast (bytes ! 0); i = push_bit 8 i;
          i = i + ucast (bytes ! 1)
      in i)"

definition bytes_to_int32 :: "uint8_t list \<Rightarrow> int32_t" where
  "bytes_to_int32 bytes =
     (let i = 0;
          i = i + ucast (bytes ! 0); i = push_bit 8 i;
          i = i + ucast (bytes ! 1); i = push_bit 8 i;
          i = i + ucast (bytes ! 2); i = push_bit 8 i;
          i = i + ucast (bytes ! 3)
      in i)"

definition bytes_to_int64 :: "uint8_t list \<Rightarrow> int64_t" where
  "bytes_to_int64 bytes =
     (let i = 0;
          i = i + ucast (bytes ! 0); i = push_bit 8 i;
          i = i + ucast (bytes ! 1); i = push_bit 8 i;
          i = i + ucast (bytes ! 2); i = push_bit 8 i;
          i = i + ucast (bytes ! 3); i = push_bit 8 i;
          i = i + ucast (bytes ! 4); i = push_bit 8 i;
          i = i + ucast (bytes ! 5); i = push_bit 8 i;
          i = i + ucast (bytes ! 6); i = push_bit 8 i;
          i = i + ucast (bytes ! 7)
      in i)"

definition int8_to_bytes :: "int8_t \<Rightarrow> uint8_t list" where
  "int8_to_bytes val = [val]"

definition int16_to_bytes :: "int16_t \<Rightarrow> uint8_t list" where
  "int16_to_bytes val =
     (let b1 = ucast val; val = signed_drop_bit 8 val;
          b0 = ucast val
      in [b0, b1])"

definition int32_to_bytes :: "int32_t \<Rightarrow> uint8_t list" where
  "int32_to_bytes val =
     (let b3 = ucast val; val = signed_drop_bit 8 val;
          b2 = ucast val; val = signed_drop_bit 8 val;
          b1 = ucast val; val = signed_drop_bit 8 val;
          b0 = ucast val
      in [b0, b1, b2, b3])"

definition int64_to_bytes :: "int64_t \<Rightarrow> uint8_t list" where
  "int64_to_bytes val =
     (let b7 = ucast val; val = signed_drop_bit 8 val;
          b6 = ucast val; val = signed_drop_bit 8 val;
          b5 = ucast val; val = signed_drop_bit 8 val;
          b4 = ucast val; val = signed_drop_bit 8 val;
          b3 = ucast val; val = signed_drop_bit 8 val;
          b2 = ucast val; val = signed_drop_bit 8 val;
          b1 = ucast val; val = signed_drop_bit 8 val;
          b0 = ucast val
      in [b0, b1, b2, b3, b4, b5, b6, b7])"

subsection \<open>Floating point\<close>

text \<open>
  A \<^verbatim>\<open>float\<close> or \<^verbatim>\<open>double\<close> is its IEEE-754 bit pattern; the codec only moves its
  bytes.  The host is a parameter: \<open>True\<close> for a big-endian host.  \<open>object_byte\<close> is
  byte \<open>k\<close> of the object representation of a \<open>n\<close>-byte value in host memory
  (\<^verbatim>\<open>((uint8_t *) &val)[k]\<close>) and \<open>object_value\<close> is the value whose object
  representation is the given byte array (\<^verbatim>\<open>*((T *) b)\<close>).
\<close>

definition object_byte :: "bool \<Rightarrow> nat \<Rightarrow> 'a::len word \<Rightarrow> nat \<Rightarrow> uint8_t" where
  "object_byte host_big n val k =
     (if host_big then ucast (drop_bit (8 * (n - 1 - k)) val) else ucast (drop_bit (8 * k) val))"

fun object_value :: "bool \<Rightarrow> uint8_t list \<Rightarrow> 'a::len word" where
  "object_value host_big [] = 0"
| "object_value host_big (b # bs) =
     (if host_big then push_bit (8 * length bs) (ucast b) + object_value host_big bs
      else ucast b + push_bit 8 (object_value host_big bs))"

definition is_big_endian :: "bool \<Rightarrow> bool" where
  "is_big_endian host_big = (object_byte host_big 4 (1 :: 32 word) 0 = 0)"

definition bytes_to_float :: "bool \<Rightarrow> uint8_t list \<Rightarrow> 32 word" where
  "bytes_to_float host_big bytes =
     (if is_big_endian host_big
      then object_value host_big [bytes ! 0, bytes ! 1, bytes ! 2, bytes ! 3]
      else object_value host_big [bytes ! 3, bytes ! 2, bytes ! 1, bytes ! 0])"

definition bytes_to_double :: "bool \<Rightarrow> uint8_t list \<Rightarrow> 64 word" where
  "bytes_to_double host_big bytes =
     (if is_big_endian host_big
      then object_value host_big
             [bytes ! 0, bytes ! 1, bytes ! 2, bytes ! 3,
              bytes ! 4, bytes ! 5, bytes ! 6, bytes ! 7]
      else object_value host_big
             [bytes ! 7, bytes ! 6, bytes ! 5, bytes ! 4,
              bytes ! 3, bytes ! 2, bytes ! 1, bytes ! 0])"

definition float_to_bytes :: "bool \<Rightarrow> 32 word \<Rightarrow> uint8_t list" where
  "float_to_bytes host_big val =
     (let p = object_byte host_big 4 val
      in if is_big_endian host_big then [p 0, p 1, p 2, p 3] else [p 3, p 2, p 1, p 0])"

definition double_to_bytes :: "bool \<Rightarrow> 64 word \<Rightarrow> uint8_t list" where
  "double_to_bytes host_big val =
     (let p = object_byte host_big 8 val
      in if is_big_endian host_big then [p 0, p 1, p 2, p 3, p 4, p 5, p 6, p 7]
         else [p 7, p 6, p 5, p 4, p 3, p 2, p 1, p 0])"

subsection \<open>Booleans\<close>

text \<open>A boolean travels as a \<^verbatim>\<open>uint8_t\<close>: 0 is false, 1 is true.\<close>

definition bytes_to_bool :: "uint8_t list \<Rightarrow> uint8_t" where
  "bytes_to_bool bytes = (if bytes ! 0 \<noteq> 0 then 1 else 0)"

definition bool_to_bytes :: "uint8_t \<Rightarrow> uint8_t list" where
  "bool_to_bytes val = [val]"

section \<open>Domain codec\<close>

definition bytes_to_time_point :: "uint8_t list \<Rightarrow> time_point" where
  "bytes_to_time_point bytes = bytes_to_int64 bytes"

definition time_point_to_bytes :: "time_point \<Rightarrow> uint8_t list" where
  "time_point_to_bytes val = int64_to_bytes val"

definition bytes_to_hh_mm_ss :: "uint8_t list \<Rightarrow> hh_mm_ss" where
  "bytes_to_hh_mm_ss bytes =
     \<lparr>hours = bytes_to_uint8 bytes,
      minutes = bytes_to_uint8 (drop 1 bytes),
      seconds = bytes_to_uint8 (drop 2 bytes)\<rparr>"

definition hh_mm_ss_to_bytes :: "hh_mm_ss \<Rightarrow> uint8_t list" where
  "hh_mm_ss_to_bytes val =
     uint8_to_bytes (hours val) @ uint8_to_bytes (minutes val) @ uint8_to_bytes (seconds val)"

definition bytes_to_date_range :: "uint8_t list \<Rightarrow> date_range" where
  "bytes_to_date_range bytes =
     \<lparr>dr_from = bytes_to_time_point bytes,
      dr_to = bytes_to_time_point (drop 8 bytes)\<rparr>"

definition date_range_to_bytes :: "date_range \<Rightarrow> uint8_t list" where
  "date_range_to_bytes val = time_point_to_bytes (dr_from val) @ time_point_to_bytes (dr_to val)"

definition bytes_to_time_range :: "uint8_t list \<Rightarrow> time_range" where
  "bytes_to_time_range bytes =
     \<lparr>tr_from = bytes_to_hh_mm_ss bytes,
      tr_to = bytes_to_hh_mm_ss (drop 3 bytes)\<rparr>"

definition time_range_to_bytes :: "time_range \<Rightarrow> uint8_t list" where
  "time_range_to_bytes val = hh_mm_ss_to_bytes (tr_from val) @ hh_mm_ss_to_bytes (tr_to val)"

definition bytes_to_zone_offset :: "uint8_t list \<Rightarrow> zone_offset" where
  "bytes_to_zone_offset bytes = bytes_to_int16 bytes"

definition zone_offset_to_bytes :: "zone_offset \<Rightarrow> uint8_t list" where
  "zone_offset_to_bytes val = int16_to_bytes val"

definition bytes_to_zoned_time :: "uint8_t list \<Rightarrow> zoned_time" where
  "bytes_to_zoned_time bytes =
     \<lparr>zt_time = bytes_to_time_point bytes,
      zt_offset = bytes_to_zone_offset (drop 8 bytes)\<rparr>"

definition zoned_time_to_bytes :: "zoned_time \<Rightarrow> uint8_t list" where
  "zoned_time_to_bytes val = time_point_to_bytes (zt_time val) @ zone_offset_to_bytes (zt_offset val)"

definition bytes_to_fixp32 :: "uint8_t list \<Rightarrow> int32_t \<Rightarrow> fixp32" where
  "bytes_to_fixp32 bytes scale = \<lparr>unscaled32 = bytes_to_int32 bytes, scale32 = scale\<rparr>"

definition fixp32_to_bytes :: "fixp32 \<Rightarrow> uint8_t list" where
  "fixp32_to_bytes val = int32_to_bytes (unscaled32 val)"

definition bytes_to_fixp64 :: "uint8_t list \<Rightarrow> int32_t \<Rightarrow> fixp64" where
  "bytes_to_fixp64 bytes scale = \<lparr>unscaled64 = bytes_to_int64 bytes, scale64 = scale\<rparr>"

definition fixp64_to_bytes :: "fixp64 \<Rightarrow> uint8_t list" where
  "fixp64_to_bytes val = int64_to_bytes (unscaled64 val)"

section \<open>Reading a buffer\<close>

text \<open>
  A function that reads a caller's buffer either returns, or reads a byte at an index that
  is not below \<^verbatim>\<open>buf_len\<close> (undefined behaviour in C; the model stops there and
  keeps the index), or fails an \<^verbatim>\<open>assert\<close>.  The buffer is the list of its
  \<^verbatim>\<open>buf_len\<close> bytes, so \<^verbatim>\<open>buf_len\<close> is \<open>length buf\<close> and \<^verbatim>\<open>size_t\<close> values
  are natural numbers.
\<close>

datatype 'a outcome = Returns 'a | Out_Of_Bounds nat | Assertion_Failed

text \<open>Sequencing: the next statement runs when the previous one returned.\<close>

definition and_then :: "'a outcome \<Rightarrow> ('a \<Rightarrow> 'b outcome) \<Rightarrow> 'b outcome" where
  "and_then m f =
     (case m of
        Returns x \<Rightarrow> f x
      | Out_Of_Bounds i \<Rightarrow> Out_Of_Bounds i
      | Assertion_Failed \<Rightarrow> Assertion_Failed)"

definition buf_at :: "uint8_t list \<Rightarrow> nat \<Rightarrow> uint8_t outcome" where
  "buf_at buf i = (if i < length buf then Returns (buf ! i) else Out_Of_Bounds i)"

text \<open>
  A call \<^verbatim>\<open>f(buf + off)\<close> of a decoder that reads \<open>n\<close> bytes: the first index outside
  the buffer is reported when the \<open>n\<close> bytes are not all there.
\<close>

definition call_at :: "uint8_t list \<Rightarrow> nat \<Rightarrow> nat \<Rightarrow> (uint8_t list \<Rightarrow> 'a) \<Rightarrow> 'a outcome" where
  "call_at buf off n f =
     (if off + n \<le> length buf then Returns (f (drop off buf))
      else Out_Of_Bounds (max off (length buf)))"

text \<open>
  A call \<^verbatim>\<open>f(buf + k, buf_len - k)\<close> runs on \<open>drop k buf\<close>; an index that the callee
  reads outside its buffer is \<open>k\<close> further in the caller's buffer.
\<close>

definition at_offset :: "nat \<Rightarrow> 'a outcome \<Rightarrow> 'a outcome" where
  "at_offset k m =
     (case m of
        Returns x \<Rightarrow> Returns x
      | Out_Of_Bounds i \<Rightarrow> Out_Of_Bounds (k + i)
      | Assertion_Failed \<Rightarrow> Assertion_Failed)"

section \<open>Constants of the header\<close>

definition TLV_TYPE_NULL :: uint8_t where "TLV_TYPE_NULL = 0x00"
definition TLV_TYPE_TERMINATOR :: uint8_t where "TLV_TYPE_TERMINATOR = 0xFE"
definition TLV_TYPE_NDEF :: uint8_t where "TLV_TYPE_NDEF = 0x03"

definition TNF_URI :: uint8_t where "TNF_URI = 0x03"
definition RECORD_TYPE_SCHEME :: string where
  "RECORD_TYPE_SCHEME = ''https://pma.inftech.hs-mannheim.de/eput''"

definition SUCCESS :: int where "SUCCESS = 0"
definition ERR_NO_NDEF_TLV :: int where "ERR_NO_NDEF_TLV = -10"
definition ERR_REC_BUF_TRUNCATED :: int where "ERR_REC_BUF_TRUNCATED = -20"
definition ERR_REC_WRONG_TYPE :: int where "ERR_REC_WRONG_TYPE = -21"
definition ERR_DATA_BUF_WRONG_LENGTH :: int where "ERR_DATA_BUF_WRONG_LENGTH = -30"

text \<open>
  A pointer stored in a record is \<open>None\<close> for \<^verbatim>\<open>NULL\<close> and otherwise the offset of
  its target from the \<^verbatim>\<open>buf\<close> argument of the \<^verbatim>\<open>get_record\<close> call that stored it.
  The fields \<^verbatim>\<open>type\<close>, \<^verbatim>\<open>id\<close> and \<^verbatim>\<open>payload\<close> are \<open>rec_type\<close>,
  \<open>rec_id\<close> and \<open>rec_payload\<close>.
\<close>

record ndef_record =
  tnf :: uint8_t
  type_length :: uint8_t
  rec_type :: "nat option"
  id_length :: uint8_t
  rec_id :: "nat option"
  payload_length :: uint32_t
  rec_payload :: "nat option"

section \<open>Type check of a record\<close>

text \<open>
  \<^verbatim>\<open>strncmp(str, prefix, n) == 0\<close> with \<open>n\<close> the length of \<open>prefix\<close>: the bytes are
  compared in order and the comparison stops at the first difference.  No character of
  the prefix is NUL, so the comparison never stops early at a terminator.
\<close>

fun strncmp_eq :: "uint8_t list \<Rightarrow> nat \<Rightarrow> uint8_t list \<Rightarrow> bool outcome" where
  "strncmp_eq buf str [] = Returns True"
| "strncmp_eq buf str (c # cs) =
     (case buf_at buf str of
        Returns b \<Rightarrow> if b \<noteq> c then Returns False else strncmp_eq buf (str + 1) cs
      | Out_Of_Bounds i \<Rightarrow> Out_Of_Bounds i
      | Assertion_Failed \<Rightarrow> Assertion_Failed)"

definition starts_with :: "uint8_t list \<Rightarrow> nat option \<Rightarrow> nat \<Rightarrow> string \<Rightarrow> bool outcome" where
  "starts_with buf str str_len prefix =
     (case str of
        None \<Rightarrow> Returns False
      | Some s \<Rightarrow>
          let prefix_len = length prefix
          in if prefix_len > str_len then Returns False
             else strncmp_eq buf s (map of_char prefix))"

definition type_valid :: "uint8_t list \<Rightarrow> nat option \<Rightarrow> nat \<Rightarrow> bool outcome" where
  "type_valid buf bytes len = starts_with buf bytes len RECORD_TYPE_SCHEME"

section \<open>TLV scanner\<close>

text \<open>
  The block of the loop body that reads the length field of an entry, entered with
  \<open>index\<close> at the byte after the type byte.  It returns the length and the index of the
  first value byte, or \<open>None\<close> where the source leaves the loop with \<^verbatim>\<open>break\<close>.
\<close>

definition tlv_length :: "uint8_t list \<Rightarrow> nat \<Rightarrow> (uint16_t \<times> nat) option outcome" where
  "tlv_length buf index =
     (if length buf < index + 1 then Returns None
      else case buf_at buf index of
        Out_Of_Bounds i \<Rightarrow> Out_Of_Bounds i
      | Assertion_Failed \<Rightarrow> Assertion_Failed
      | Returns b \<Rightarrow>
          if b = 0xFF then
            if length buf < index + 2 then Returns None
            else case buf_at buf (index + 1) of
              Out_Of_Bounds i \<Rightarrow> Out_Of_Bounds i
            | Assertion_Failed \<Rightarrow> Assertion_Failed
            | Returns hi \<Rightarrow>
                (case buf_at buf (index + 2) of
                   Out_Of_Bounds i \<Rightarrow> Out_Of_Bounds i
                 | Assertion_Failed \<Rightarrow> Assertion_Failed
                 | Returns lo \<Rightarrow>
                     let len = push_bit 8 (ucast hi) + ucast lo
                     in if len = 0xFFFF then Returns None
                        else Returns (Some (len, index + 3)))
          else Returns (Some (ucast b, index + 1)))"

text \<open>
  The \<^verbatim>\<open>while (index < buf_len)\<close> loop.  \<open>offset_p\<close> is the value stored at
  \<^verbatim>\<open>*offset_p\<close>; the result is the returned length and the value stored there at
  the end.
\<close>

function get_ndef_tlv_offset_loop ::
  "uint8_t list \<Rightarrow> nat \<Rightarrow> nat \<Rightarrow> (uint16_t \<times> nat) outcome" where
  "get_ndef_tlv_offset_loop buf index offset_p =
     (if index < length buf then
        (case buf_at buf index of
           Out_Of_Bounds i \<Rightarrow> Out_Of_Bounds i
         | Assertion_Failed \<Rightarrow> Assertion_Failed
         | Returns type \<Rightarrow>
             if type = TLV_TYPE_NULL then get_ndef_tlv_offset_loop buf (index + 1) offset_p
             else if type = TLV_TYPE_TERMINATOR then Returns (0, offset_p)
             else
               (case tlv_length buf (index + 1) of
                  Out_Of_Bounds i \<Rightarrow> Out_Of_Bounds i
                | Assertion_Failed \<Rightarrow> Assertion_Failed
                | Returns None \<Rightarrow> Returns (0, offset_p)
                | Returns (Some (len, index')) \<Rightarrow>
                    if type = TLV_TYPE_NDEF then Returns (len, index')
                    else get_ndef_tlv_offset_loop buf (index' + unat len) offset_p))
      else Returns (0, offset_p))"
  by pat_completeness auto
termination
  by (relation "measure (\<lambda>(buf, index, offset_p). length buf - index)")
     (auto simp add: tlv_length_def Let_def split: if_splits outcome.splits)

definition get_ndef_tlv_offset :: "uint8_t list \<Rightarrow> nat \<Rightarrow> (uint16_t \<times> nat) outcome" where
  "get_ndef_tlv_offset buf offset_p = get_ndef_tlv_offset_loop buf 0 offset_p"

section \<open>Record decoder\<close>

text \<open>
  The sum that is compared with \<^verbatim>\<open>buf_len\<close> and returned is computed in
  \<^verbatim>\<open>unsigned int\<close>, since \<^verbatim>\<open>payload_length\<close> is a \<^verbatim>\<open>uint32_t\<close>: it wraps at
  \<open>2 ^ 32\<close>.  The return type is \<^verbatim>\<open>int\<close>, so the returned sum is read in two's
  complement.
\<close>

definition get_record :: "uint8_t list \<Rightarrow> ndef_record \<Rightarrow> (int \<times> ndef_record) outcome" where
  "get_record buf record =
     (let buf_len = length buf
      in if buf_len < 2 then Returns (ERR_REC_BUF_TRUNCATED, record)
      else
        and_then (buf_at buf 0) (\<lambda>flags.
        let tnf_v = flags AND 0x07;
            id_length_present = flags AND 0x08;
            short_record = flags AND 0x10
        in
        and_then (buf_at buf 1) (\<lambda>type_length_v.
        and_then (if short_record > 0 then and_then (buf_at buf 2) (\<lambda>b. Returns (ucast b))
                  else call_at buf 2 4 bytes_to_uint32) (\<lambda>payload_length_v.
        let pl_length = (if short_record > 0 then 1 else 4 :: nat);
            idl_length = (if id_length_present > 0 then 1 else 0 :: nat)
        in
        and_then (if id_length_present > 0 then buf_at buf (2 + pl_length)
                  else Returns 0) (\<lambda>id_length_v.
        let id = (if id_length_present > 0 \<and> id_length_v > 0
                  then Some (2 + pl_length + idl_length + unat type_length_v) else None);
            type = Some (2 + pl_length + idl_length);
            payload = Some (2 + pl_length + idl_length + unat type_length_v + unat id_length_v);
            total = (2 + of_nat pl_length + of_nat idl_length + ucast type_length_v
                     + ucast id_length_v + payload_length_v :: uint32_t)
        in if buf_len < unat total then Returns (ERR_REC_BUF_TRUNCATED, record)
           else Returns (sint total,
                  record\<lparr>tnf := tnf_v, type_length := type_length_v, rec_type := type,
                         id_length := id_length_v, rec_id := id,
                         payload_length := payload_length_v, rec_payload := payload\<rparr>))))))"

section \<open>Message decoder\<close>

text \<open>
  \<^verbatim>\<open>rec->tnf != TNF_URI || !type_valid(rec->type, rec->type_length)\<close>: the type is only
  compared when the TNF is the URI one.
\<close>

definition wrong_type :: "uint8_t list \<Rightarrow> ndef_record \<Rightarrow> bool outcome" where
  "wrong_type buf rec =
     (if tnf rec \<noteq> TNF_URI then Returns True
      else and_then (type_valid buf (rec_type rec) (unat (type_length rec)))
             (\<lambda>valid. Returns (\<not> valid)))"

text \<open>The result is the status and the records stored at \<^verbatim>\<open>meta_rec\<close> and \<^verbatim>\<open>data_rec\<close>.\<close>

definition get_records ::
  "uint8_t list \<Rightarrow> ndef_record \<Rightarrow> ndef_record \<Rightarrow> (int \<times> ndef_record \<times> ndef_record) outcome" where
  "get_records buf meta_rec data_rec =
     and_then (get_record buf data_rec) (\<lambda>(ret, data_rec).
     if ret < 0 then Returns (ret, meta_rec, data_rec)
     else
       and_then (wrong_type buf data_rec) (\<lambda>wrong.
       if wrong then Returns (ERR_REC_WRONG_TYPE, meta_rec, data_rec)
       else
         and_then (at_offset (nat ret) (get_record (drop (nat ret) buf) meta_rec))
           (\<lambda>(ret2, meta_rec).
         if ret2 < 0 then Returns (ret2, meta_rec, data_rec)
         else
           and_then (at_offset (nat ret) (wrong_type (drop (nat ret) buf) meta_rec))
             (\<lambda>wrong.
           if wrong then Returns (ERR_REC_WRONG_TYPE, meta_rec, data_rec)
           else Returns (SUCCESS, meta_rec, data_rec)))))"

section \<open>Bitmap option checker\<close>

definition is_option_selected :: "uint8_t list \<Rightarrow> uint8_t \<Rightarrow> bool outcome" where
  "is_option_selected bitmap option =
     (let bitmap_len = length bitmap
      in if \<not> unat option < bitmap_len * 8 then Assertion_Failed
      else
        let map_index = unat option div 8;
            byte_index = unat option mod 8
        in and_then (buf_at bitmap map_index) (\<lambda>b.
           let mask = (push_bit byte_index 0x01 :: uint8_t)
           in Returns (b AND mask \<noteq> 0)))"

section \<open>Specification of the record type check\<close>

text \<open>
  What the message decoder requires of a record, in the words of the specification: the
  type field, \<open>type_length\<close> bytes at \<open>rec_type\<close>, starts byte for byte with the
  URI-scheme constant.  \<open>type_in_buffer\<close> says that the type field lies inside the buffer.
\<close>

definition type_in_buffer :: "uint8_t list \<Rightarrow> ndef_record \<Rightarrow> bool" where
  "type_in_buffer buf rec =
     (case rec_type rec of
        None \<Rightarrow> True
      | Some p \<Rightarrow> p + unat (type_length rec) \<le> length buf)"

definition type_starts_with_scheme :: "uint8_t list \<Rightarrow> ndef_record \<Rightarrow> bool" where
  "type_starts_with_scheme buf rec =
     (case rec_type rec of
        None \<Rightarrow> False
      | Some p \<Rightarrow>
          take (length RECORD_TYPE_SCHEME) (take (unat (type_length rec)) (drop p buf))
          = map of_char RECORD_TYPE_SCHEME)"

text \<open>A zero-initialised record, \<^verbatim>\<open>ndef_record rec = {0}\<close>, for the examples.\<close>

definition zero_record :: ndef_record where
  "zero_record =
     \<lparr>tnf = 0, type_length = 0, rec_type = None, id_length = 0, rec_id = None,
      payload_length = 0, rec_payload = None\<rparr>"

section \<open>Specification of the byte order\<close>

text \<open>
  The number that a byte string denotes when it is read most significant byte first
  (network byte order): each further byte multiplies what was read by 256.
\<close>

definition big_endian_value :: "uint8_t list \<Rightarrow> nat" where
  "big_endian_value bytes = foldl (\<lambda>acc b. acc * 256 + unat b) 0 bytes"

section \<open>Bytes of a word\<close>

lemma byte_step:
  fixes v :: "'a::len word"
  shows "push_bit 8 (drop_bit (n + 8) v) + ucast (ucast (drop_bit n v) :: 8 word) = drop_bit n v"
proof -
  have low: "(ucast (ucast (drop_bit n v) :: 8 word) :: 'a word) = take_bit 8 (drop_bit n v)"
    by (simp add: unsigned_ucast_eq)
  have high: "drop_bit (n + 8) v = drop_bit 8 (drop_bit n v)"
    by (simp add: add.commute)
  show ?thesis unfolding low high by (rule bits_ident)
qed

lemma byte_step0:
  fixes v :: "'a::len word"
  shows "push_bit 8 (drop_bit 8 v) + ucast (ucast v :: 8 word) = v"
  using byte_step [of 0 v] by simp

lemma byte_step_rev:
  fixes v :: "'a::len word"
  shows "ucast (ucast (drop_bit n v) :: 8 word) + push_bit 8 (drop_bit (n + 8) v) = drop_bit n v"
  by (subst add.commute) (rule byte_step)

lemmas byte_steps =
  byte_step0 byte_step [of 8, simplified] byte_step [of 16, simplified]
  byte_step [of 24, simplified] byte_step [of 32, simplified] byte_step [of 40, simplified]
  byte_step [of 48, simplified]

lemmas byte_steps_rev =
  byte_step_rev [of 0, simplified] byte_step_rev [of 8, simplified]
  byte_step_rev [of 16, simplified] byte_step_rev [of 24, simplified]
  byte_step_rev [of 32, simplified] byte_step_rev [of 40, simplified]
  byte_step_rev [of 48, simplified]

lemma top_byte:
  fixes v :: "'a::len word"
  assumes "LENGTH('a) \<le> n + 8"
  shows "(ucast (ucast (drop_bit n v) :: 8 word) :: 'a word) = drop_bit n v"
  using assms by (intro bit_word_eqI) (auto simp add: bit_simps dest: bit_imp_le_length)

lemma ucast_signed_drop:
  fixes v :: "'a::len word"
  assumes "n + 8 \<le> LENGTH('a)"
  shows "(ucast (signed_drop_bit n v) :: 8 word) = ucast (drop_bit n v)"
  using assms by (intro bit_word_eqI) (auto simp add: bit_simps)

lemma ucast_drop_signed_drop:
  fixes v :: "'a::len word"
  assumes "m + n + 8 \<le> LENGTH('a)"
  shows "(ucast (drop_bit m (signed_drop_bit n v)) :: 8 word) = ucast (drop_bit (m + n) v)"
  using assms by (intro bit_word_eqI) (auto simp add: bit_simps ac_simps)

lemma horner4:
  fixes a :: "'a::len word"
  shows "push_bit 24 a + push_bit 16 b + push_bit 8 c + d
         = push_bit 8 (push_bit 8 (push_bit 8 a + b) + c) + d"
  by (simp add: push_bit_add)

lemma horner8:
  fixes a :: "'a::len word"
  shows "push_bit 56 a + push_bit 48 b + push_bit 40 c + push_bit 32 d
         + push_bit 24 e + push_bit 16 f + push_bit 8 g + h
         = push_bit 8 (push_bit 8 (push_bit 8 (push_bit 8 (push_bit 8 (push_bit 8
             (push_bit 8 a + b) + c) + d) + e) + f) + g) + h"
  by (simp add: push_bit_add)

section \<open>Round trips of the primitive codec\<close>

text \<open>
  Each decoder reads a fixed number of bytes from the start of its argument, so the bytes
  that follow the encoding do not matter.
\<close>

lemma int16_bytes_eq: "int16_to_bytes v = uint16_to_bytes v"
  by (simp add: int16_to_bytes_def uint16_to_bytes_def Let_def ucast_signed_drop
      ucast_drop_signed_drop)

lemma int32_bytes_eq: "int32_to_bytes v = uint32_to_bytes v"
  by (simp add: int32_to_bytes_def uint32_to_bytes_def Let_def ucast_signed_drop
      ucast_drop_signed_drop)

lemma int64_bytes_eq: "int64_to_bytes v = uint64_to_bytes v"
  by (simp add: int64_to_bytes_def uint64_to_bytes_def Let_def ucast_signed_drop
      ucast_drop_signed_drop)

lemma uint16_round_trip: "bytes_to_uint16 (uint16_to_bytes v @ rest) = v"
  by (simp add: bytes_to_uint16_def uint16_to_bytes_def byte_steps top_byte)

lemma uint32_round_trip: "bytes_to_uint32 (uint32_to_bytes v @ rest) = v"
  by (simp add: bytes_to_uint32_def uint32_to_bytes_def horner4 top_byte byte_steps)

lemma uint64_round_trip: "bytes_to_uint64 (uint64_to_bytes v @ rest) = v"
  by (simp add: bytes_to_uint64_def uint64_to_bytes_def horner8 top_byte byte_steps)

lemma int16_round_trip: "bytes_to_int16 (int16_to_bytes v @ rest) = v"
  by (simp add: int16_bytes_eq bytes_to_int16_def uint16_to_bytes_def Let_def top_byte
      byte_steps)

lemma int32_round_trip: "bytes_to_int32 (int32_to_bytes v @ rest) = v"
  by (simp add: int32_bytes_eq bytes_to_int32_def uint32_to_bytes_def Let_def top_byte
      byte_steps)

lemma int64_round_trip: "bytes_to_int64 (int64_to_bytes v @ rest) = v"
  by (simp add: int64_bytes_eq bytes_to_int64_def uint64_to_bytes_def Let_def top_byte
      byte_steps)

lemma length_int64_to_bytes: "length (int64_to_bytes v) = 8"
  by (simp add: int64_bytes_eq uint64_to_bytes_def)

lemma is_big_endian_host: "is_big_endian host_big = host_big"
  by (simp add: is_big_endian_def object_byte_def)

lemma float_round_trip: "bytes_to_float host_big (float_to_bytes host_big v) = v"
  by (cases host_big)
     (simp_all add: bytes_to_float_def float_to_bytes_def is_big_endian_host object_byte_def
        Let_def add.assoc [symmetric] horner4 top_byte byte_steps byte_steps_rev)

lemma double_round_trip: "bytes_to_double host_big (double_to_bytes host_big v) = v"
  by (cases host_big)
     (simp_all add: bytes_to_double_def double_to_bytes_def is_big_endian_host object_byte_def
        Let_def add.assoc [symmetric] horner8 top_byte byte_steps byte_steps_rev)

text \<open>On either host the bytes written for a float are its bit pattern, high byte first.\<close>

lemma float_wire_order: "float_to_bytes host_big v = uint32_to_bytes v"
  by (cases host_big)
     (simp_all add: float_to_bytes_def is_big_endian_host object_byte_def Let_def
        uint32_to_bytes_def)

lemma double_wire_order: "double_to_bytes host_big v = uint64_to_bytes v"
  by (cases host_big)
     (simp_all add: double_to_bytes_def is_big_endian_host object_byte_def Let_def
        uint64_to_bytes_def)

section \<open>Round trips of the domain codec\<close>

lemma time_point_round_trip: "bytes_to_time_point (time_point_to_bytes v @ rest) = v"
  by (simp add: bytes_to_time_point_def time_point_to_bytes_def int64_round_trip)

lemma length_time_point_to_bytes: "length (time_point_to_bytes v) = 8"
  by (simp add: time_point_to_bytes_def length_int64_to_bytes)

lemma hh_mm_ss_round_trip: "bytes_to_hh_mm_ss (hh_mm_ss_to_bytes v @ rest) = v"
  by (cases v) (simp add: bytes_to_hh_mm_ss_def hh_mm_ss_to_bytes_def bytes_to_uint8_def
      uint8_to_bytes_def)

lemma length_hh_mm_ss_to_bytes: "length (hh_mm_ss_to_bytes v) = 3"
  by (simp add: hh_mm_ss_to_bytes_def uint8_to_bytes_def)

lemma date_range_round_trip: "bytes_to_date_range (date_range_to_bytes v) = v"
proof (cases v)
  case (fields a b)
  have "bytes_to_time_point (time_point_to_bytes b) = b"
    using time_point_round_trip [of b "[]"] by simp
  then show ?thesis
    by (simp add: fields bytes_to_date_range_def date_range_to_bytes_def
        time_point_round_trip length_time_point_to_bytes)
qed

lemma time_range_round_trip: "bytes_to_time_range (time_range_to_bytes v) = v"
proof (cases v)
  case (fields a b)
  have "bytes_to_hh_mm_ss (hh_mm_ss_to_bytes b) = b"
    using hh_mm_ss_round_trip [of b "[]"] by simp
  then show ?thesis
    by (simp add: fields bytes_to_time_range_def time_range_to_bytes_def
        hh_mm_ss_round_trip length_hh_mm_ss_to_bytes)
qed

lemma zone_offset_round_trip: "bytes_to_zone_offset (zone_offset_to_bytes v @ rest) = v"
  by (simp add: bytes_to_zone_offset_def zone_offset_to_bytes_def int16_round_trip)

lemma zoned_time_round_trip: "bytes_to_zoned_time (zoned_time_to_bytes v) = v"
proof (cases v)
  case (fields a b)
  have "bytes_to_zone_offset (zone_offset_to_bytes b) = b"
    using zone_offset_round_trip [of b "[]"] by simp
  then show ?thesis
    by (simp add: fields bytes_to_zoned_time_def zoned_time_to_bytes_def
        time_point_round_trip length_time_point_to_bytes)
qed

section \<open>Claims about the codec\<close>

text \<open>
  A byte other than 0 and 1 handed to \<open>bool_to_bytes\<close> is written as it is and read
  back as 1: the truth value is kept, the byte is normalised.
\<close>

lemma bool_round_trip_normalises:
  "bytes_to_bool (bool_to_bytes v) = (if v = 0 then 0 else 1)"
  by (simp add: bytes_to_bool_def bool_to_bytes_def)

text \<open>
  C6.  Decoding the bytes produced by encoding a value gives the value back, for every
  value of every primitive and domain type: unsigned and signed integers of 8, 16, 32
  and 64 bits, the two booleans, float and double (as bit patterns, on a big-endian and
  on a little-endian host), TimePoint, WallTime, DateRange, WallTimeRange, ZoneOffset and
  ZonedTime.  The fields of a WallTime are not validated: 24:60:60 and 255:255:255 come
  back unchanged.
\<close>

theorem codec_round_trip:
  "bytes_to_uint8 (uint8_to_bytes u8) = u8
   \<and> bytes_to_uint16 (uint16_to_bytes u16) = u16
   \<and> bytes_to_uint32 (uint32_to_bytes u32) = u32
   \<and> bytes_to_uint64 (uint64_to_bytes u64) = u64
   \<and> bytes_to_int8 (int8_to_bytes i8) = i8
   \<and> bytes_to_int16 (int16_to_bytes i16) = i16
   \<and> bytes_to_int32 (int32_to_bytes i32) = i32
   \<and> bytes_to_int64 (int64_to_bytes i64) = i64
   \<and> bytes_to_bool (bool_to_bytes 0) = 0
   \<and> bytes_to_bool (bool_to_bytes 1) = 1
   \<and> bytes_to_float host_big (float_to_bytes host_big f) = f
   \<and> bytes_to_double host_big (double_to_bytes host_big d) = d
   \<and> bytes_to_time_point (time_point_to_bytes tp) = tp
   \<and> bytes_to_hh_mm_ss (hh_mm_ss_to_bytes wt) = wt
   \<and> bytes_to_hh_mm_ss (hh_mm_ss_to_bytes \<lparr>hours = 24, minutes = 60, seconds = 60\<rparr>)
       = \<lparr>hours = 24, minutes = 60, seconds = 60\<rparr>
   \<and> bytes_to_hh_mm_ss (hh_mm_ss_to_bytes \<lparr>hours = 255, minutes = 255, seconds = 255\<rparr>)
       = \<lparr>hours = 255, minutes = 255, seconds = 255\<rparr>
   \<and> bytes_to_date_range (date_range_to_bytes dr) = dr
   \<and> bytes_to_time_range (time_range_to_bytes tr) = tr
   \<and> bytes_to_zone_offset (zone_offset_to_bytes zo) = zo
   \<and> bytes_to_zoned_time (zoned_time_to_bytes zt) = zt"
proof -
  have u8: "bytes_to_uint8 (uint8_to_bytes u8) = u8"
    by (simp add: bytes_to_uint8_def uint8_to_bytes_def)
  have i8: "bytes_to_int8 (int8_to_bytes i8) = i8"
    by (simp add: bytes_to_int8_def int8_to_bytes_def)
  have b0: "bytes_to_bool (bool_to_bytes 0) = 0"
    by (simp add: bytes_to_bool_def bool_to_bytes_def)
  have b1: "bytes_to_bool (bool_to_bytes 1) = 1"
    by (simp add: bytes_to_bool_def bool_to_bytes_def)
  have wt: "bytes_to_hh_mm_ss (hh_mm_ss_to_bytes w) = w" for w
    using hh_mm_ss_round_trip [of w "[]"] by simp
  show ?thesis
    using uint16_round_trip [of u16 "[]"] uint32_round_trip [of u32 "[]"]
      uint64_round_trip [of u64 "[]"] int16_round_trip [of i16 "[]"]
      int32_round_trip [of i32 "[]"] int64_round_trip [of i64 "[]"]
      time_point_round_trip [of tp "[]"] zone_offset_round_trip [of zo "[]"]
    by (simp only: u8 i8 b0 b1 wt float_round_trip double_round_trip date_range_round_trip
        time_range_round_trip zoned_time_round_trip append_Nil2 simp_thms)
qed

text \<open>
  C7.  Only the unscaled field of a fixed-point value is written, and the decoder takes
  the scale from its parameter: encoding a value with scale \<open>s1\<close> and decoding with scale
  \<open>s2\<close> gives the same unscaled field with scale \<open>s2\<close>, for FixedPoint32 and
  FixedPoint64; the bytes written do not depend on the scale.  Unscaled 5 with scale 2,
  decoded with scale 7, is unscaled 5 with scale 7.
\<close>

theorem fixed_point_scale_not_serialized:
  "bytes_to_fixp32 (fixp32_to_bytes \<lparr>unscaled32 = u, scale32 = s1\<rparr>) s2
     = \<lparr>unscaled32 = u, scale32 = s2\<rparr>
   \<and> bytes_to_fixp64 (fixp64_to_bytes \<lparr>unscaled64 = w, scale64 = s1\<rparr>) s2
     = \<lparr>unscaled64 = w, scale64 = s2\<rparr>
   \<and> fixp32_to_bytes \<lparr>unscaled32 = u, scale32 = s1\<rparr>
     = fixp32_to_bytes \<lparr>unscaled32 = u, scale32 = s2\<rparr>
   \<and> fixp64_to_bytes \<lparr>unscaled64 = w, scale64 = s1\<rparr>
     = fixp64_to_bytes \<lparr>unscaled64 = w, scale64 = s2\<rparr>
   \<and> bytes_to_fixp32 (fixp32_to_bytes \<lparr>unscaled32 = 5, scale32 = 2\<rparr>) 7
     = \<lparr>unscaled32 = 5, scale32 = 7\<rparr>
   \<and> bytes_to_fixp64 (fixp64_to_bytes \<lparr>unscaled64 = 5, scale64 = 2\<rparr>) 7
     = \<lparr>unscaled64 = 5, scale64 = 7\<rparr>"
proof -
  have i32: "bytes_to_int32 (int32_to_bytes x) = x" for x
    using int32_round_trip [of x "[]"] by simp
  have i64: "bytes_to_int64 (int64_to_bytes x) = x" for x
    using int64_round_trip [of x "[]"] by simp
  show ?thesis
    by (simp add: bytes_to_fixp32_def fixp32_to_bytes_def bytes_to_fixp64_def
        fixp64_to_bytes_def i32 i64)
qed

section \<open>Byte order of the integer encoders\<close>

lemma unat_byte:
  fixes v :: "'a::len word"
  shows "unat (ucast (drop_bit k v) :: 8 word) = unat v div 2 ^ k mod 256"
proof -
  have "unat (ucast (drop_bit k v) :: 8 word) = take_bit 8 (unat (drop_bit k v))"
    by (simp add: unsigned_ucast_eq)
  also have "unat (drop_bit k v) = drop_bit k (unat v)"
    by (rule unat_drop_bit_eq)
  finally show ?thesis
    by (simp only: take_bit_eq_mod drop_bit_eq_div) simp
qed

lemma nat_byte_step:
  fixes n :: nat
  shows "n div 2 ^ (k + 8) * 256 + n div 2 ^ k mod 256 = n div 2 ^ k"
proof -
  have "n div 2 ^ (k + 8) = n div 2 ^ k div 256"
    by (simp add: power_add div_mult2_eq)
  then show ?thesis by simp
qed

lemma nat_top_byte:
  fixes n :: nat
  assumes "n < 2 ^ (k + 8)"
  shows "n div 2 ^ k mod 256 = n div 2 ^ k"
proof -
  from assms have "n < 2 ^ k * 256" by (simp add: power_add)
  then have "n div 2 ^ k < 256" by (simp add: less_mult_imp_div_less mult.commute)
  then show ?thesis by simp
qed

lemma horner_value2: "big_endian_value [a, b] = unat a * 256 + unat b"
  by (simp add: big_endian_value_def)

lemma horner_value4:
  "big_endian_value [a, b, c, d] = ((unat a * 256 + unat b) * 256 + unat c) * 256 + unat d"
  by (simp add: big_endian_value_def)

lemma horner_value8:
  "big_endian_value [a, b, c, d, e, f, g, h]
   = ((((((unat a * 256 + unat b) * 256 + unat c) * 256 + unat d) * 256 + unat e) * 256
       + unat f) * 256 + unat g) * 256 + unat h"
  by (simp add: big_endian_value_def)

lemma uint16_bytes_value: "big_endian_value (uint16_to_bytes v) = unat v"
proof -
  let ?n = "unat v"
  have top: "?n div 2 ^ 8 mod 256 = ?n div 2 ^ 8"
    by (rule nat_top_byte) (use unsigned_less [of v, where ?'a = nat] in simp)
  have low: "unat (ucast v :: 8 word) = ?n div 2 ^ 0 mod 256"
    using unat_byte [of 0 v] by simp
  have "big_endian_value (uint16_to_bytes v)
      = ?n div 2 ^ 8 * 256 + ?n div 2 ^ 0 mod 256"
    by (simp only: uint16_to_bytes_def horner_value2 unat_byte low top)
  also have "\<dots> = ?n div 2 ^ 0"
    using nat_byte_step [of ?n 0] by simp
  finally show ?thesis by simp
qed

lemma uint32_bytes_value: "big_endian_value (uint32_to_bytes v) = unat v"
proof -
  let ?n = "unat v"
  have top: "?n div 2 ^ 24 mod 256 = ?n div 2 ^ 24"
    by (rule nat_top_byte) (use unsigned_less [of v, where ?'a = nat] in simp)
  have low: "unat (ucast v :: 8 word) = ?n div 2 ^ 0 mod 256"
    using unat_byte [of 0 v] by simp
  have "big_endian_value (uint32_to_bytes v)
      = ((?n div 2 ^ 24 * 256 + ?n div 2 ^ 16 mod 256) * 256
        + ?n div 2 ^ 8 mod 256) * 256
        + ?n div 2 ^ 0 mod 256"
    by (simp only: uint32_to_bytes_def horner_value4 unat_byte low top)
  also have "\<dots> = (?n div 2 ^ 16 * 256 + ?n div 2 ^ 8 mod 256) * 256
        + ?n div 2 ^ 0 mod 256"
    using nat_byte_step [of ?n 16] by simp
  also have "\<dots> = ?n div 2 ^ 8 * 256 + ?n div 2 ^ 0 mod 256"
    using nat_byte_step [of ?n 8] by simp
  also have "\<dots> = ?n div 2 ^ 0"
    using nat_byte_step [of ?n 0] by simp
  finally show ?thesis by simp
qed

lemma uint64_bytes_value: "big_endian_value (uint64_to_bytes v) = unat v"
proof -
  let ?n = "unat v"
  have top: "?n div 2 ^ 56 mod 256 = ?n div 2 ^ 56"
    by (rule nat_top_byte) (use unsigned_less [of v, where ?'a = nat] in simp)
  have low: "unat (ucast v :: 8 word) = ?n div 2 ^ 0 mod 256"
    using unat_byte [of 0 v] by simp
  have "big_endian_value (uint64_to_bytes v)
      = ((((((?n div 2 ^ 56 * 256 + ?n div 2 ^ 48 mod 256) * 256
        + ?n div 2 ^ 40 mod 256) * 256
        + ?n div 2 ^ 32 mod 256) * 256
        + ?n div 2 ^ 24 mod 256) * 256
        + ?n div 2 ^ 16 mod 256) * 256
        + ?n div 2 ^ 8 mod 256) * 256
        + ?n div 2 ^ 0 mod 256"
    by (simp only: uint64_to_bytes_def horner_value8 unat_byte low top)
  also have "\<dots> = (((((?n div 2 ^ 48 * 256 + ?n div 2 ^ 40 mod 256) * 256
        + ?n div 2 ^ 32 mod 256) * 256
        + ?n div 2 ^ 24 mod 256) * 256
        + ?n div 2 ^ 16 mod 256) * 256
        + ?n div 2 ^ 8 mod 256) * 256
        + ?n div 2 ^ 0 mod 256"
    using nat_byte_step [of ?n 48] by simp
  also have "\<dots> = ((((?n div 2 ^ 40 * 256 + ?n div 2 ^ 32 mod 256) * 256
        + ?n div 2 ^ 24 mod 256) * 256
        + ?n div 2 ^ 16 mod 256) * 256
        + ?n div 2 ^ 8 mod 256) * 256
        + ?n div 2 ^ 0 mod 256"
    using nat_byte_step [of ?n 40] by simp
  also have "\<dots> = (((?n div 2 ^ 32 * 256 + ?n div 2 ^ 24 mod 256) * 256
        + ?n div 2 ^ 16 mod 256) * 256
        + ?n div 2 ^ 8 mod 256) * 256
        + ?n div 2 ^ 0 mod 256"
    using nat_byte_step [of ?n 32] by simp
  also have "\<dots> = ((?n div 2 ^ 24 * 256 + ?n div 2 ^ 16 mod 256) * 256
        + ?n div 2 ^ 8 mod 256) * 256
        + ?n div 2 ^ 0 mod 256"
    using nat_byte_step [of ?n 24] by simp
  also have "\<dots> = (?n div 2 ^ 16 * 256 + ?n div 2 ^ 8 mod 256) * 256
        + ?n div 2 ^ 0 mod 256"
    using nat_byte_step [of ?n 16] by simp
  also have "\<dots> = ?n div 2 ^ 8 * 256 + ?n div 2 ^ 0 mod 256"
    using nat_byte_step [of ?n 8] by simp
  also have "\<dots> = ?n div 2 ^ 0"
    using nat_byte_step [of ?n 0] by simp
  finally show ?thesis by simp
qed

text \<open>A signed value is written as its two's complement.\<close>

lemma twos_complement:
  fixes v :: "'a::len word"
  shows "int (unat v) = sint v mod 2 ^ LENGTH('a)"
  by (simp add: uint_sint take_bit_eq_mod)

text \<open>
  Byte strings of one length that denote the same number are equal, so the value and the
  length fix every byte of an encoding.
\<close>

lemma big_endian_value_snoc:
  "big_endian_value (xs @ [x]) = big_endian_value xs * 256 + unat x"
  by (simp add: big_endian_value_def)

lemma big_endian_value_inject:
  "length xs = length ys \<Longrightarrow> big_endian_value xs = big_endian_value ys \<Longrightarrow> xs = ys"
proof (induction xs arbitrary: ys rule: rev_induct)
  case Nil
  then show ?case by simp
next
  case (snoc x xs)
  from snoc.prems(1) have "ys \<noteq> []" by auto
  then obtain zs y where ys: "ys = zs @ [y]" by (meson rev_exhaust)
  have bx: "unat x < 256" using unsigned_less [of x, where ?'a = nat] by simp
  have bz: "unat y < 256" using unsigned_less [of y, where ?'a = nat] by simp
  from snoc.prems(2) ys
  have eq: "big_endian_value xs * 256 + unat x = big_endian_value zs * 256 + unat y"
    by (simp only: big_endian_value_snoc)
  from arg_cong [OF eq, of "\<lambda>n. n mod 256"] bx bz have low: "unat x = unat y" by simp
  from arg_cong [OF eq, of "\<lambda>n. n div 256"] bx bz
  have high: "big_endian_value xs = big_endian_value zs" by simp
  from snoc.prems(1) ys have "length xs = length zs" by simp
  from snoc.IH [OF this high] low ys show ?case by (simp add: word_unat_eq_iff)
qed

text \<open>
  C8.  Every integer encoder writes most significant byte first, and none takes a host
  parameter: for every value of every width the bytes written, read in network byte
  order, denote the value, an unsigned value as it is and a signed value in two's
  complement (its value modulo \<open>2 ^ n\<close>), and their number is the width in bytes.  In
  particular the 32-bit unsigned value 0x01020304 is written as 01 02 03 04 and the 16-bit
  signed value -1 as FF FF.
\<close>

theorem integer_encoding_big_endian:
  "length (uint8_to_bytes u8) = 1 \<and> big_endian_value (uint8_to_bytes u8) = unat u8
   \<and> length (uint16_to_bytes u16) = 2 \<and> big_endian_value (uint16_to_bytes u16) = unat u16
   \<and> length (uint32_to_bytes u32) = 4 \<and> big_endian_value (uint32_to_bytes u32) = unat u32
   \<and> length (uint64_to_bytes u64) = 8 \<and> big_endian_value (uint64_to_bytes u64) = unat u64
   \<and> length (int8_to_bytes i8) = 1
   \<and> int (big_endian_value (int8_to_bytes i8)) = sint i8 mod 2 ^ 8
   \<and> length (int16_to_bytes i16) = 2
   \<and> int (big_endian_value (int16_to_bytes i16)) = sint i16 mod 2 ^ 16
   \<and> length (int32_to_bytes i32) = 4
   \<and> int (big_endian_value (int32_to_bytes i32)) = sint i32 mod 2 ^ 32
   \<and> length (int64_to_bytes i64) = 8
   \<and> int (big_endian_value (int64_to_bytes i64)) = sint i64 mod 2 ^ 64
   \<and> uint32_to_bytes 0x01020304 = [0x01, 0x02, 0x03, 0x04]
   \<and> int16_to_bytes (- 1) = [0xFF, 0xFF]"
proof -
  have lengths:
    "length (uint8_to_bytes u8) = 1" "length (uint16_to_bytes u16) = 2"
    "length (uint32_to_bytes u32) = 4" "length (uint64_to_bytes u64) = 8"
    "length (int8_to_bytes i8) = 1" "length (int16_to_bytes i16) = 2"
    "length (int32_to_bytes i32) = 4" "length (int64_to_bytes i64) = 8"
    by (simp_all add: uint8_to_bytes_def uint16_to_bytes_def uint32_to_bytes_def
        uint64_to_bytes_def int8_to_bytes_def int16_bytes_eq int32_bytes_eq int64_bytes_eq)
  have u8: "big_endian_value (uint8_to_bytes u8) = unat u8"
    by (simp add: uint8_to_bytes_def big_endian_value_def)
  have s8: "int (big_endian_value (int8_to_bytes i8)) = sint i8 mod 2 ^ 8"
    using twos_complement [of i8] by (simp add: int8_to_bytes_def big_endian_value_def)
  have s16: "int (big_endian_value (int16_to_bytes i16)) = sint i16 mod 2 ^ 16"
    using twos_complement [of i16] by (simp add: int16_bytes_eq uint16_bytes_value)
  have s32: "int (big_endian_value (int32_to_bytes i32)) = sint i32 mod 2 ^ 32"
    using twos_complement [of i32] by (simp add: int32_bytes_eq uint32_bytes_value)
  have s64: "int (big_endian_value (int64_to_bytes i64)) = sint i64 mod 2 ^ 64"
    using twos_complement [of i64] by (simp add: int64_bytes_eq uint64_bytes_value)
  have minus_one: "(- 1 :: int16_t) = 0xFFFF" by simp
  have ex32: "uint32_to_bytes 0x01020304 = [0x01, 0x02, 0x03, 0x04]"
    by (simp add: uint32_to_bytes_def drop_bit_eq_div)
  have ex16: "int16_to_bytes (- 1) = [0xFF, 0xFF]"
    unfolding int16_bytes_eq minus_one by (simp add: uint16_to_bytes_def drop_bit_eq_div)
  show ?thesis
    by (simp only: lengths u8 uint16_bytes_value uint32_bytes_value uint64_bytes_value
        s8 s16 s32 s64 ex32 ex16 simp_thms)
qed

section \<open>Claims about the bitmap option checker\<close>

text \<open>
  C9.  When \<open>option < bitmap_len * 8\<close>, \<open>is_option_selected\<close> returns whether the mask
  \<open>1 << (option mod 8)\<close> hits byte \<open>option div 8\<close> of the bitmap, that is, whether bit
  \<open>option mod 8\<close> of that byte is set.
\<close>

theorem is_option_selected_tests_bit:
  assumes "unat option < length bitmap * 8"
  shows "is_option_selected bitmap option
           = Returns (bitmap ! (unat option div 8) AND push_bit (unat option mod 8) 1 \<noteq> 0)
         \<and> is_option_selected bitmap option
           = Returns (bit (bitmap ! (unat option div 8)) (unat option mod 8))"
proof -
  from assms have "unat option div 8 < length bitmap"
    by (simp add: less_mult_imp_div_less)
  then show ?thesis
    using assms
    by (simp add: is_option_selected_def buf_at_def and_then_def Let_def
        bit_iff_and_push_bit_not_eq_0)
qed

text \<open>The one-byte bitmap 00000101: options 0 and 2 are selected, option 1 is not.\<close>

theorem is_option_selected_tests_bit_witness:
  "is_option_selected [0b00000101] 0 = Returns True
   \<and> is_option_selected [0b00000101] 1 = Returns False
   \<and> is_option_selected [0b00000101] 2 = Returns True"
  using is_option_selected_tests_bit [of 0 "[0b00000101]"]
    is_option_selected_tests_bit [of 1 "[0b00000101]"]
    is_option_selected_tests_bit [of 2 "[0b00000101]"]
  by simp

section \<open>Claims about the TLV scanner\<close>

lemmas tlv_consts = TLV_TYPE_NULL_def TLV_TYPE_TERMINATOR_def TLV_TYPE_NDEF_def

text \<open>The examples of the specification that the scanner handles as described.\<close>

lemma get_ndef_tlv_offset_examples:
  "get_ndef_tlv_offset [0x01, 0x00, 0x03, 0x02, 0xAA, 0xBB, 0xFE] offset_p = Returns (2, 4)
   \<and> get_ndef_tlv_offset [0x03, 0xFF, 0xFF, 0xFF] offset_p = Returns (0, offset_p)"
  by (simp add: get_ndef_tlv_offset_def buf_at_def tlv_length_def tlv_consts)

text \<open>
  C1.  The claim: the scan never reads a byte at an index that is not below
  \<^verbatim>\<open>buf_len\<close>, and reports not-found when the buffer is too short for the next header
  or for the declared value bytes.  The code does not check the value bytes of an NDEF
  entry: on 03 02 AA it returns length 2 with the offset 2, although one value byte is
  there.  And the guard before the extended length, \<^verbatim>\<open>buf_len < index + 2\<close>, is one
  too small for the read of \<^verbatim>\<open>buf[index + 2]\<close>: on 03 FF 00 the scan reads index 3
  of a 3-byte buffer.
\<close>

theorem get_ndef_tlv_offset_truncated_buffers:
  "get_ndef_tlv_offset [0x03, 0x02, 0xAA] offset_p = Returns (2, 2)
   \<and> get_ndef_tlv_offset [0x03, 0xFF, 0x00] offset_p = Out_Of_Bounds 3"
  by (simp add: get_ndef_tlv_offset_def buf_at_def tlv_length_def tlv_consts)

text \<open>
  The read of \<^verbatim>\<open>buf[index + 2]\<close> is the only one that can leave the buffer, and
  only by one byte: it happens when the buffer ends right after the first byte of an
  extended length.
\<close>

lemma tlv_length_out_of_bounds:
  assumes "tlv_length buf index = Out_Of_Bounds i"
  shows "i = length buf \<and> length buf = index + 2"
  using assms
  by (auto simp add: tlv_length_def buf_at_def Let_def split: if_splits)

lemma get_ndef_tlv_offset_loop_out_of_bounds:
  "get_ndef_tlv_offset_loop buf index offset_p = Out_Of_Bounds i \<Longrightarrow> i = length buf"
proof (induction buf index offset_p rule: get_ndef_tlv_offset_loop.induct)
  case (1 buf index offset_p)
  show ?case
  proof (cases "index < length buf")
    case False
    with "1.prems" show ?thesis
      by (subst (asm) get_ndef_tlv_offset_loop.simps) simp
  next
    case True
    then have at: "buf_at buf index = Returns (buf ! index)" by (simp add: buf_at_def)
    show ?thesis
    proof (cases "buf ! index = TLV_TYPE_NULL")
      case null: True
      with True at "1.prems"
      have "get_ndef_tlv_offset_loop buf (index + 1) offset_p = Out_Of_Bounds i"
        by (subst (asm) get_ndef_tlv_offset_loop.simps) simp
      with "1.IH"(1) [OF True at null] show ?thesis .
    next
      case not_null: False
      show ?thesis
      proof (cases "buf ! index = TLV_TYPE_TERMINATOR")
        case True
        with \<open>index < length buf\<close> at not_null "1.prems" show ?thesis
          by (subst (asm) get_ndef_tlv_offset_loop.simps) simp
      next
        case not_term: False
        show ?thesis
        proof (cases "tlv_length buf (index + 1)")
          case (Out_Of_Bounds j)
          with True at not_null not_term "1.prems" have "j = i"
            by (subst (asm) get_ndef_tlv_offset_loop.simps) simp
          with tlv_length_out_of_bounds [OF Out_Of_Bounds] show ?thesis by simp
        next
          case Assertion_Failed
          with True at not_null not_term "1.prems" show ?thesis
            by (subst (asm) get_ndef_tlv_offset_loop.simps) simp
        next
          case (Returns x)
          show ?thesis
          proof (cases x)
            case None
            with Returns True at not_null not_term "1.prems" show ?thesis
              by (subst (asm) get_ndef_tlv_offset_loop.simps) simp
          next
            case (Some y)
            obtain len index' where y: "y = (len, index')" by (cases y)
            show ?thesis
            proof (cases "buf ! index = TLV_TYPE_NDEF")
              case ndef: True
              with Some y Returns \<open>index < length buf\<close> at not_null not_term "1.prems"
              show ?thesis
                by (subst (asm) get_ndef_tlv_offset_loop.simps) simp
            next
              case not_ndef: False
              with Some y Returns True at not_null not_term "1.prems"
              have "get_ndef_tlv_offset_loop buf (index' + unat len) offset_p = Out_Of_Bounds i"
                by (subst (asm) get_ndef_tlv_offset_loop.simps) simp
              with "1.IH"(2) [OF True at not_null not_term] Returns Some y not_ndef
              show ?thesis by simp
            qed
          qed
        qed
      qed
    qed
  qed
qed

lemma loop_skips_nulls:
  assumes "i \<le> n"
  shows "get_ndef_tlv_offset_loop (replicate n TLV_TYPE_NULL @ rest) i offset_p
         = get_ndef_tlv_offset_loop (replicate n TLV_TYPE_NULL @ rest) n offset_p"
  using assms
proof (induction "n - i" arbitrary: i)
  case 0
  then show ?case by simp
next
  case (Suc k)
  then have lt: "i < n" and k: "k = n - Suc i" and le: "Suc i \<le> n" by simp_all
  from lt have at: "buf_at (replicate n TLV_TYPE_NULL @ rest) i = Returns TLV_TYPE_NULL"
    by (simp add: buf_at_def nth_append)
  from lt have "get_ndef_tlv_offset_loop (replicate n TLV_TYPE_NULL @ rest) i offset_p
      = get_ndef_tlv_offset_loop (replicate n TLV_TYPE_NULL @ rest) (Suc i) offset_p"
    by (subst get_ndef_tlv_offset_loop.simps) (simp add: at)
  also have "\<dots> = get_ndef_tlv_offset_loop (replicate n TLV_TYPE_NULL @ rest) n offset_p"
    using Suc.hyps(1) [OF k le] .
  finally show ?case .
qed

text \<open>
  C10.  An NDEF entry that declares the value length 0, in the short form (03 00) or in
  the extended form (03 FF 00 00), after any number of null entries and whatever follows
  it, makes the scan return the length 0.  That is the length returned when the scan
  meets the terminator or the end of the buffer without an NDEF entry, so the returned
  length, which the header documents as "found if bigger than 0", does not tell an empty
  NDEF entry from a missing one; only the value stored at \<^verbatim>\<open>*offset_p\<close> differs.
\<close>

theorem empty_ndef_entry_returns_not_found_length:
  "get_ndef_tlv_offset (replicate n TLV_TYPE_NULL @ [TLV_TYPE_NDEF, 0x00] @ rest) offset_p
     = Returns (0, n + 2)
   \<and> get_ndef_tlv_offset (replicate n TLV_TYPE_NULL @ [TLV_TYPE_NDEF, 0xFF, 0x00, 0x00] @ rest)
         offset_p
     = Returns (0, n + 4)
   \<and> get_ndef_tlv_offset (replicate n TLV_TYPE_NULL @ [TLV_TYPE_TERMINATOR] @ rest) offset_p
     = Returns (0, offset_p)
   \<and> get_ndef_tlv_offset (replicate n TLV_TYPE_NULL) offset_p = Returns (0, offset_p)"
proof -
  have skip: "get_ndef_tlv_offset (replicate n TLV_TYPE_NULL @ xs) offset_p
      = get_ndef_tlv_offset_loop (replicate n TLV_TYPE_NULL @ xs) n offset_p" for xs
    unfolding get_ndef_tlv_offset_def by (rule loop_skips_nulls) simp
  have short_form:
    "get_ndef_tlv_offset_loop (replicate n TLV_TYPE_NULL @ [TLV_TYPE_NDEF, 0x00] @ rest)
      n offset_p = Returns (0, n + 2)"
    by (subst get_ndef_tlv_offset_loop.simps)
       (simp add: buf_at_def tlv_length_def nth_append tlv_consts)
  have extended_form:
    "get_ndef_tlv_offset_loop
      (replicate n TLV_TYPE_NULL @ [TLV_TYPE_NDEF, 0xFF, 0x00, 0x00] @ rest) n offset_p
      = Returns (0, n + 4)"
    by (subst get_ndef_tlv_offset_loop.simps)
       (simp add: buf_at_def tlv_length_def nth_append tlv_consts)
  have terminator:
    "get_ndef_tlv_offset_loop (replicate n TLV_TYPE_NULL @ [TLV_TYPE_TERMINATOR] @ rest)
      n offset_p = Returns (0, offset_p)"
    by (subst get_ndef_tlv_offset_loop.simps)
       (simp add: buf_at_def nth_append tlv_consts)
  have "get_ndef_tlv_offset_loop (replicate n TLV_TYPE_NULL @ []) n offset_p
      = Returns (0, offset_p)"
    by (subst get_ndef_tlv_offset_loop.simps) simp
  with skip [of "[]"] have no_entry:
    "get_ndef_tlv_offset (replicate n TLV_TYPE_NULL) offset_p = Returns (0, offset_p)"
    by simp
  show ?thesis
    by (simp only: skip short_form extended_form terminator no_entry simp_thms)
qed

section \<open>Claims about the record decoder\<close>

lemmas run_get_record = get_record_def buf_at_def call_at_def and_then_def Let_def
  bytes_to_uint32_def ERR_REC_BUF_TRUNCATED_def

text \<open>
  The short-form example of the specification: flags 0x13, type length 1, payload length
  2.  The record is decoded and 6 bytes are consumed.
\<close>

lemma get_record_short_form_example:
  "get_record [0x13, 0x01, 0x02, 0x55, 0xAA, 0xBB] record
     = Returns (6, record\<lparr>tnf := 3, type_length := 1, rec_type := Some 3, id_length := 0,
                          rec_id := None, payload_length := 2, rec_payload := Some 4\<rparr>)"
  by (simp add: run_get_record)

text \<open>
  C2.  The claim: \<open>get_record\<close> succeeds exactly when \<^verbatim>\<open>buf_len\<close> is at least the
  mathematical sum of the header widths and the three lengths, and returns that sum.  The
  code adds the lengths in 32-bit unsigned arithmetic.  On the 6-byte buffer
  03 00 FF FF FF FF (long form, no id, type length 0, payload length 4294967295) the
  mathematical sum is 4294967301, far more than 6; the code computes 5, accepts the buffer
  and returns 5 with a record whose payload is said to hold 4294967295 bytes.
\<close>

theorem get_record_length_sum_wraps:
  "get_record [0x03, 0x00, 0xFF, 0xFF, 0xFF, 0xFF] record
     = Returns (5, record\<lparr>tnf := 3, type_length := 0, rec_type := Some 6, id_length := 0,
                          rec_id := None, payload_length := 4294967295,
                          rec_payload := Some 6\<rparr>)"
  by (simp add: run_get_record)

text \<open>
  C3.  The claim: \<open>get_record\<close> detects truncation before it reads, so it never reads a
  byte at an index that is not below \<^verbatim>\<open>buf_len\<close>.  The code checks \<^verbatim>\<open>buf_len < 2\<close>
  only, then reads the payload-length field and the id-length byte, and compares the
  total with \<^verbatim>\<open>buf_len\<close> afterwards.  A 2-byte buffer with the short-record bit has
  index 2 read; a 3-byte buffer in the long form has index 3 read; a 3-byte short record
  with the id-length bit has index 3 read.
\<close>

theorem get_record_reads_beyond_short_buffer:
  "get_record [0x13, 0x00] record = Out_Of_Bounds 2
   \<and> get_record [0x03, 0x00, 0xFF] record = Out_Of_Bounds 3
   \<and> get_record [0x1B, 0x00, 0x00] record = Out_Of_Bounds 3"
  by (simp add: run_get_record)

lemma and_then_Returns:
  "and_then m f = Returns y \<longleftrightarrow> (\<exists>x. m = Returns x \<and> f x = Returns y)"
  by (cases m) (simp_all add: and_then_def)

lemma and_then_Out_Of_Bounds:
  "and_then m f = Out_Of_Bounds i \<longleftrightarrow>
     m = Out_Of_Bounds i \<or> (\<exists>x. m = Returns x \<and> f x = Out_Of_Bounds i)"
  by (cases m) (simp_all add: and_then_def)

text \<open>
  A read outside the buffer happens on buffers of 2 to 6 bytes only, at the index
  \<^verbatim>\<open>buf_len\<close>.
\<close>

lemma get_record_out_of_bounds:
  assumes "get_record buf record = Out_Of_Bounds i"
  shows "i = length buf \<and> 2 \<le> length buf \<and> length buf \<le> 6"
  using assms
  apply (simp add: get_record_def Let_def split: if_splits)
  apply (auto simp add: and_then_Out_Of_Bounds buf_at_def call_at_def and_then_def Let_def
      split: if_splits)
  done

lemma sint_small:
  fixes w :: "32 word"
  assumes "unat w < 2147483648"
  shows "0 \<le> sint w"
proof -
  have lt: "uint w < 2147483648"
    unfolding uint_nat using assms by (simp only: of_nat_less_numeral_iff)
  have "sint w = signed_take_bit 31 (uint w)"
    by (simp add: sint_uint)
  also have "\<dots> = uint w"
  proof (rule signed_take_bit_int_eq_self)
    show "- (2 ^ 31) \<le> uint w" by (rule order_trans [of _ 0]) simp_all
    from lt show "uint w < 2 ^ 31" by simp
  qed
  finally show ?thesis by simp
qed

text \<open>
  The two ways \<open>get_record\<close> returns: the truncation error with the record untouched, or
  the wrapped total, which is at most \<^verbatim>\<open>buf_len\<close>, converted to \<^verbatim>\<open>int\<close>.
\<close>

lemma get_record_cases:
  assumes "get_record buf record = Returns (ret, r)"
  shows "(ret = ERR_REC_BUF_TRUNCATED \<and> r = record)
         \<or> (\<exists>total :: uint32_t. unat total \<le> length buf \<and> ret = sint total)"
proof (cases "length buf < 2")
  case True
  with assms show ?thesis by (simp add: get_record_def)
next
  case False
  with assms show ?thesis
    apply (simp add: get_record_def and_then_Returns Let_def)
    apply (elim exE conjE)
    apply (simp split: if_splits)
    apply (metis not_le)+
    done
qed

text \<open>
  On a buffer of fewer than \<open>2 ^ 31\<close> bytes a negative status is the truncation error
  and the record is unchanged.
\<close>

lemma get_record_negative:
  assumes "get_record buf record = Returns (ret, r)" and "ret < 0"
    and "length buf < 2147483648"
  shows "ret = ERR_REC_BUF_TRUNCATED \<and> r = record"
proof -
  from get_record_cases [OF assms(1)] show ?thesis
  proof
    assume "ret = ERR_REC_BUF_TRUNCATED \<and> r = record"
    then show ?thesis .
  next
    assume "\<exists>total :: uint32_t. unat total \<le> length buf \<and> ret = sint total"
    then obtain total :: uint32_t where t: "unat total \<le> length buf" "ret = sint total"
      by blast
    from t(1) assms(3) have "unat total < 2147483648" by (rule le_less_trans)
    then have "0 \<le> sint total" by (rule sint_small)
    with t(2) assms(2) show ?thesis by simp
  qed
qed

text \<open>
  C5.  The claim: whenever \<open>get_record\<close> returns a negative status, no field of the
  record has been written.  Both \<^verbatim>\<open>return ERR_REC_BUF_TRUNCATED\<close> statements come
  before the writes, but the success path returns the 32-bit unsigned total as an
  \<^verbatim>\<open>int\<close>.  On a buffer of \<open>2 ^ 31\<close> bytes that starts 03 00 7F FF FF FA the total is
  \<open>2 ^ 31\<close>, the buffer is long enough, the record is written and the value returned is
  \<open>- 2 ^ 31\<close>.
\<close>

theorem get_record_negative_status_with_record_written:
  "get_record ([0x03, 0x00, 0x7F, 0xFF, 0xFF, 0xFA] @ replicate 2147483642 0) record
     = Returns (- 2147483648,
         record\<lparr>tnf := 3, type_length := 0, rec_type := Some 6, id_length := 0,
                rec_id := None, payload_length := 2147483642, rec_payload := Some 6\<rparr>)"
  by (simp add: run_get_record)

section \<open>Claims about the message decoder\<close>

lemma scheme_length: "length RECORD_TYPE_SCHEME = 39"
  by (simp add: RECORD_TYPE_SCHEME_def)

lemma scheme_bytes:
  "(map of_char RECORD_TYPE_SCHEME :: uint8_t list) =
     [104, 116, 116, 112, 115, 58, 47, 47, 112, 109, 97, 46, 105, 110, 102, 116, 101, 99, 104,
      46, 104, 115, 45, 109, 97, 110, 110, 104, 101, 105, 109, 46, 100, 101, 47, 101, 112,
      117, 116]"
  by (simp add: RECORD_TYPE_SCHEME_def)

text \<open>The comparison reads only the bytes it compares and is equality of the prefix.\<close>

lemma strncmp_eq_take:
  "s + length cs \<le> length buf \<Longrightarrow>
   strncmp_eq buf s cs = Returns (take (length cs) (drop s buf) = cs)"
proof (induction cs arbitrary: s)
  case Nil
  then show ?case by simp
next
  case (Cons c cs)
  then have lt: "s < length buf" and rest: "Suc s + length cs \<le> length buf" by simp_all
  from lt have d: "drop s buf = buf ! s # drop (Suc s) buf"
    by (simp add: Cons_nth_drop_Suc)
  show ?case
    using Cons.IH [OF rest] lt by (simp add: buf_at_def d)
qed

lemma starts_with_take:
  assumes "s + n \<le> length buf"
  shows "starts_with buf (Some s) n prefix
         = Returns (take (length prefix) (take n (drop s buf)) = map of_char prefix)"
proof (cases "length prefix > n")
  case True
  with assms have "length (take (length prefix) (take n (drop s buf)))
      \<noteq> length (map of_char prefix :: uint8_t list)"
    by simp
  then have "take (length prefix) (take n (drop s buf)) \<noteq> map of_char prefix"
    by (rule contrapos_nn) simp
  with True show ?thesis by (simp add: starts_with_def)
next
  case False
  then have le: "length prefix \<le> n" by simp
  with assms have "s + length (map of_char prefix :: uint8_t list) \<le> length buf" by simp
  from strncmp_eq_take [OF this] le False show ?thesis
    by (simp add: starts_with_def Let_def min_absorb1)
qed

text \<open>
  The check of \<open>get_records\<close> on a record whose type field lies in the buffer is the
  check of the specification: TNF is URI and the type starts with the scheme.
\<close>

lemma wrong_type_spec:
  assumes "type_in_buffer buf rec"
  shows "wrong_type buf rec
         = Returns (\<not> (tnf rec = TNF_URI \<and> type_starts_with_scheme buf rec))"
proof (cases "rec_type rec")
  case None
  then show ?thesis
    by (simp add: wrong_type_def type_valid_def starts_with_def and_then_def
        type_starts_with_scheme_def)
next
  case (Some p)
  with assms have "p + unat (type_length rec) \<le> length buf"
    by (simp add: type_in_buffer_def)
  from starts_with_take [OF this] Some show ?thesis
    by (simp add: wrong_type_def type_valid_def and_then_def type_starts_with_scheme_def)
qed

text \<open>
  What \<open>get_records\<close> does once the first \<open>get_record\<close> has returned, for records
  whose type field lies in the buffer.  A negative status of the first decode is returned
  with the metadata record untouched; on a buffer below \<open>2 ^ 31\<close> bytes that status is
  the truncation error and the data record is untouched too.  A first record whose TNF is
  not URI or whose type does not start with the scheme gives the wrong-type error with the
  metadata record untouched.  Otherwise the bytes from index \<open>ret\<close> on are decoded into
  the metadata record and checked in the same way.
\<close>

lemma get_records_after_first_record:
  assumes first: "get_record buf data_rec = Returns (ret, d)"
  shows "(ret < 0 \<longrightarrow> get_records buf meta_rec data_rec = Returns (ret, meta_rec, d))
    \<and> (ret < 0 \<and> length buf < 2147483648 \<longrightarrow> ret = ERR_REC_BUF_TRUNCATED \<and> d = data_rec)
    \<and> (0 \<le> ret \<and> type_in_buffer buf d
         \<and> \<not> (tnf d = TNF_URI \<and> type_starts_with_scheme buf d)
       \<longrightarrow> get_records buf meta_rec data_rec = Returns (ERR_REC_WRONG_TYPE, meta_rec, d))
    \<and> (0 \<le> ret \<and> type_in_buffer buf d \<and> tnf d = TNF_URI \<and> type_starts_with_scheme buf d
       \<longrightarrow> (\<forall>ret2 m. get_record (drop (nat ret) buf) meta_rec = Returns (ret2, m) \<longrightarrow>
              (ret2 < 0 \<longrightarrow> get_records buf meta_rec data_rec = Returns (ret2, m, d))
            \<and> (0 \<le> ret2 \<and> type_in_buffer (drop (nat ret) buf) m \<longrightarrow>
                 get_records buf meta_rec data_rec
                 = Returns (if tnf m = TNF_URI \<and> type_starts_with_scheme (drop (nat ret) buf) m
                            then SUCCESS else ERR_REC_WRONG_TYPE, m, d))))"
proof (intro conjI impI allI)
  assume "ret < 0"
  with first show "get_records buf meta_rec data_rec = Returns (ret, meta_rec, d)"
    by (simp add: get_records_def and_then_def)
next
  assume "ret < 0 \<and> length buf < 2147483648"
  with get_record_negative [OF first] show "ret = ERR_REC_BUF_TRUNCATED" by simp
next
  assume "ret < 0 \<and> length buf < 2147483648"
  with get_record_negative [OF first] show "d = data_rec" by simp
next
  assume a: "0 \<le> ret \<and> type_in_buffer buf d
         \<and> \<not> (tnf d = TNF_URI \<and> type_starts_with_scheme buf d)"
  then have "wrong_type buf d = Returns True"
    using wrong_type_spec [of buf d] by simp
  with first a show "get_records buf meta_rec data_rec = Returns (ERR_REC_WRONG_TYPE, meta_rec, d)"
    by (simp add: get_records_def and_then_def)
next
  fix ret2 m
  assume a: "0 \<le> ret \<and> type_in_buffer buf d \<and> tnf d = TNF_URI \<and> type_starts_with_scheme buf d"
    and second: "get_record (drop (nat ret) buf) meta_rec = Returns (ret2, m)"
    and neg: "ret2 < 0"
  from a have "wrong_type buf d = Returns False"
    using wrong_type_spec [of buf d] by simp
  with first second a neg show "get_records buf meta_rec data_rec = Returns (ret2, m, d)"
    by (simp add: get_records_def and_then_def at_offset_def)
next
  fix ret2 m
  assume a: "0 \<le> ret \<and> type_in_buffer buf d \<and> tnf d = TNF_URI \<and> type_starts_with_scheme buf d"
    and second: "get_record (drop (nat ret) buf) meta_rec = Returns (ret2, m)"
    and b: "0 \<le> ret2 \<and> type_in_buffer (drop (nat ret) buf) m"
  from a have w1: "wrong_type buf d = Returns False"
    using wrong_type_spec [of buf d] by simp
  from b have w2: "wrong_type (drop (nat ret) buf) m
      = Returns (\<not> (tnf m = TNF_URI \<and> type_starts_with_scheme (drop (nat ret) buf) m))"
    using wrong_type_spec [of "drop (nat ret) buf" m] by simp
  from first second a b w1 show "get_records buf meta_rec data_rec
      = Returns (if tnf m = TNF_URI \<and> type_starts_with_scheme (drop (nat ret) buf) m
                 then SUCCESS else ERR_REC_WRONG_TYPE, m, d)"
    by (simp add: get_records_def and_then_def at_offset_def w2)
qed

text \<open>
  Three messages: a first record cut short (payload length 2, no payload bytes), a first
  record of type "U", and two records of the scheme type with payloads AA BB and CC.
\<close>

lemma get_records_after_first_record_examples:
  "get_records [0x13, 0x01, 0x02, 0x55] zero_record zero_record
     = Returns (ERR_REC_BUF_TRUNCATED, zero_record, zero_record)
   \<and> get_records [0x13, 0x01, 0x02, 0x55, 0xAA, 0xBB, 0x13, 0x01, 0x02, 0x55, 0xAA, 0xBB]
       zero_record zero_record
     = Returns (ERR_REC_WRONG_TYPE, zero_record,
         \<lparr>tnf = 3, type_length = 1, rec_type = Some 3, id_length = 0, rec_id = None,
          payload_length = 2, rec_payload = Some 4\<rparr>)
   \<and> get_records
       ([0x13, 39, 0x02] @ map of_char RECORD_TYPE_SCHEME @ [0xAA, 0xBB]
        @ [0x13, 39, 0x01] @ map of_char RECORD_TYPE_SCHEME @ [0xCC])
       zero_record zero_record
     = Returns (SUCCESS,
         \<lparr>tnf = 3, type_length = 39, rec_type = Some 3, id_length = 0, rec_id = None,
          payload_length = 1, rec_payload = Some 42\<rparr>,
         \<lparr>tnf = 3, type_length = 39, rec_type = Some 3, id_length = 0, rec_id = None,
          payload_length = 2, rec_payload = Some 42\<rparr>)"
proof -
  let ?u = "\<lparr>tnf = 3, type_length = 1, rec_type = Some 3, id_length = 0, rec_id = None,
          payload_length = 2, rec_payload = Some 4\<rparr>"
  let ?buf = "[0x13, 39, 0x02] @ map of_char RECORD_TYPE_SCHEME @ [0xAA, 0xBB]
        @ [0x13, 39, 0x01] @ map of_char RECORD_TYPE_SCHEME @ [0xCC] :: uint8_t list"
  let ?d = "\<lparr>tnf = 3, type_length = 39, rec_type = Some 3, id_length = 0, rec_id = None,
          payload_length = 2, rec_payload = Some 42\<rparr>"
  let ?m = "\<lparr>tnf = 3, type_length = 39, rec_type = Some 3, id_length = 0, rec_id = None,
          payload_length = 1, rec_payload = Some 42\<rparr>"
  have cut: "get_record [0x13, 0x01, 0x02, 0x55] zero_record
      = Returns (ERR_REC_BUF_TRUNCATED, zero_record)"
    by (simp add: run_get_record)
  have truncated: "get_records [0x13, 0x01, 0x02, 0x55] zero_record zero_record
      = Returns (ERR_REC_BUF_TRUNCATED, zero_record, zero_record)"
    using get_records_after_first_record [OF cut, of zero_record]
    by (simp add: ERR_REC_BUF_TRUNCATED_def)
  have u: "get_record [0x13, 0x01, 0x02, 0x55, 0xAA, 0xBB, 0x13, 0x01, 0x02, 0x55, 0xAA, 0xBB]
        zero_record = Returns (6, ?u)"
    by (simp add: run_get_record zero_record_def)
  have wrong: "get_records
        [0x13, 0x01, 0x02, 0x55, 0xAA, 0xBB, 0x13, 0x01, 0x02, 0x55, 0xAA, 0xBB]
        zero_record zero_record = Returns (ERR_REC_WRONG_TYPE, zero_record, ?u)"
    using get_records_after_first_record [OF u, of zero_record]
    by (simp add: type_in_buffer_def type_starts_with_scheme_def scheme_bytes scheme_length)
  have d: "get_record ?buf zero_record = Returns (44, ?d)"
    by (simp add: run_get_record zero_record_def scheme_bytes)
  have m: "get_record (drop (nat 44) ?buf) zero_record = Returns (43, ?m)"
    by (simp add: run_get_record zero_record_def scheme_bytes)
  have ok: "get_records ?buf zero_record zero_record = Returns (SUCCESS, ?m, ?d)"
    using get_records_after_first_record [OF d, of zero_record] m
    by (simp add: type_in_buffer_def type_starts_with_scheme_def scheme_bytes scheme_length
        TNF_URI_def)
  from truncated wrong ok show ?thesis by (simp only: simp_thms)
qed

text \<open>
  An index that the second \<open>get_record\<close> reads outside its buffer is counted from the
  start of the message: after a first record of 44 bytes, the two bytes 13 00 have index
  46 read.
\<close>

lemma get_records_second_record_out_of_bounds:
  "get_records
       ([0x13, 39, 0x02] @ map of_char RECORD_TYPE_SCHEME @ [0xAA, 0xBB] @ [0x13, 0x00])
       meta_rec data_rec
     = Out_Of_Bounds 46"
  by (simp add: get_records_def wrong_type_def type_valid_def starts_with_def at_offset_def
      run_get_record scheme_bytes scheme_length TNF_URI_def)

text \<open>
  C4.  The claim: \<open>get_records\<close> puts the first record of the buffer into the data
  record and the second into the metadata record, and when the first record fails to
  decode or fails the type check the operation fails with the truncation or the wrong-type
  error and the second record is not decoded.  \<open>get_records\<close> calls \<open>get_record\<close> and
  inherits its two defects.

  The 45-byte message 03 27 FF FF FF D3 followed by the 39 bytes of the scheme is one
  record whose payload, declared as 4294967251 bytes, is missing.  The 32-bit total wraps
  to 0, the first decode returns 0, the type check passes, the second decode starts at
  the same byte, and the result is success with the same record stored as data and as
  metadata.

  On the first ten bytes of that message the type check runs off the buffer and reads
  index 10.  On the 2-byte message 13 00 the first decode reads index 2 where the claim
  promises the truncation error.
\<close>

theorem get_records_inherits_get_record_defects:
  "get_records
       ([0x03, 39, 0xFF, 0xFF, 0xFF, 0xD3] @ map of_char RECORD_TYPE_SCHEME)
       zero_record zero_record
     = Returns (SUCCESS,
         \<lparr>tnf = 3, type_length = 39, rec_type = Some 6, id_length = 0, rec_id = None,
          payload_length = 4294967251, rec_payload = Some 45\<rparr>,
         \<lparr>tnf = 3, type_length = 39, rec_type = Some 6, id_length = 0, rec_id = None,
          payload_length = 4294967251, rec_payload = Some 45\<rparr>)
   \<and> get_records [0x03, 39, 0xFF, 0xFF, 0xFF, 0xD3, 104, 116, 116, 112] meta_rec data_rec
     = Out_Of_Bounds 10
   \<and> get_records [0x13, 0x00] meta_rec data_rec = Out_Of_Bounds 2"
proof -
  have one_record_twice:
    "get_records
       ([0x03, 39, 0xFF, 0xFF, 0xFF, 0xD3] @ map of_char RECORD_TYPE_SCHEME)
       zero_record zero_record
     = Returns (SUCCESS,
         \<lparr>tnf = 3, type_length = 39, rec_type = Some 6, id_length = 0, rec_id = None,
          payload_length = 4294967251, rec_payload = Some 45\<rparr>,
         \<lparr>tnf = 3, type_length = 39, rec_type = Some 6, id_length = 0, rec_id = None,
          payload_length = 4294967251, rec_payload = Some 45\<rparr>)"
    by (simp add: get_records_def wrong_type_def type_valid_def starts_with_def at_offset_def
        run_get_record zero_record_def scheme_bytes scheme_length TNF_URI_def SUCCESS_def)
  have type_check_runs_off:
    "get_records [0x03, 39, 0xFF, 0xFF, 0xFF, 0xD3, 104, 116, 116, 112] meta_rec data_rec
     = Out_Of_Bounds 10"
    by (simp add: get_records_def wrong_type_def type_valid_def starts_with_def at_offset_def
        run_get_record scheme_bytes scheme_length TNF_URI_def)
  have short_header: "get_records [0x13, 0x00] meta_rec data_rec = Out_Of_Bounds 2"
    by (simp add: get_records_def run_get_record)
  from one_record_twice type_check_runs_off short_header show ?thesis
    by (simp only: simp_thms)
qed

end
